theory Spec2Isabelle
  imports Complex_Main
begin

section \<open>Data model (types.ts)\<close>

text \<open>
  JavaScript numbers are modelled exactly: an integral quantity (the battery percentage
  after \<open>Math.round\<close>) is an \<open>int\<close>, every other number is a \<open>real\<close>.
  A charging or discharging time of the Battery Status API is a number of seconds or
  \<open>Infinity\<close>.
\<close>

datatype Health = Good | Fair | Poor

datatype duration = Seconds real | Infinity

record BatteryStats =
  level :: int
  charging :: bool
  chargingTime :: duration
  dischargingTime :: duration
  temperature :: real
  voltage :: real
  health :: Health

text \<open>
  \<open>UsageData\<close> of types.ts has the fields \<open>time\<close> and \<open>level\<close>; the record
  fields carry the prefix \<open>usage_\<close> because \<open>level\<close> is already a field of
  \<open>BatteryStats\<close>.
\<close>

record UsageData =
  usage_time :: string
  usage_level :: int

text \<open>
  The value \<open>JSON.parse\<close> returns. \<open>BatteryInsight\<close> of types.ts is a TypeScript
  interface, erased at run time: what \<open>getBatteryInsights\<close> returns and what the
  \<open>insight\<close> state holds is whatever JSON value the text parsed to, \<open>JNull\<close> being
  JavaScript's \<open>null\<close>.
\<close>

datatype json =
    JNull
  | JBool bool
  | JNum real
  | JStr string
  | JArr "json list"
  | JObj "(string \<times> json) list"

text \<open>Property lookup on a parsed object: of a repeated key the last occurrence wins.\<close>

definition jget :: "(string \<times> json) list \<Rightarrow> string \<Rightarrow> json option" where
  "jget kvs k = map_of (rev kvs) k"

text \<open>JavaScript's truthiness, which \<open>if (data)\<close> and \<open>if (!text)\<close> test.\<close>

fun truthy :: "json \<Rightarrow> bool" where
  "truthy JNull = False"
| "truthy (JBool b) = b"
| "truthy (JNum x) = (x \<noteq> 0)"
| "truthy (JStr s) = (s \<noteq> [])"
| "truthy (JArr xs) = True"
| "truthy (JObj kvs) = True"

text \<open>
  The shape the interface \<open>BatteryInsight\<close> and the response schema describe: an object
  whose \<open>status\<close>, \<open>recommendation\<close> and \<open>estimatedLifeRemaining\<close> are strings and
  whose \<open>optimizationTips\<close> is an array of strings. \<open>spec_insight\<close> adds the length 3
  the specification expects of the tips.
\<close>

fun is_JStr :: "json \<Rightarrow> bool" where
  "is_JStr (JStr s) = True"
| "is_JStr j = False"

definition has_string :: "(string \<times> json) list \<Rightarrow> string \<Rightarrow> bool" where
  "has_string kvs k = (case jget kvs k of Some (JStr s) \<Rightarrow> True | _ \<Rightarrow> False)"

definition tips_of :: "json \<Rightarrow> json list option" where
  "tips_of j =
     (case j of
        JObj kvs \<Rightarrow>
          (case jget kvs ''optimizationTips'' of Some (JArr ts) \<Rightarrow> Some ts | _ \<Rightarrow> None)
      | _ \<Rightarrow> None)"

definition schema_insight :: "json \<Rightarrow> bool" where
  "schema_insight j =
     (case j of
        JObj kvs \<Rightarrow>
          has_string kvs ''status'' \<and> has_string kvs ''recommendation'' \<and>
          has_string kvs ''estimatedLifeRemaining'' \<and>
          (case tips_of j of Some ts \<Rightarrow> list_all is_JStr ts | None \<Rightarrow> False)
      | _ \<Rightarrow> False)"

definition spec_insight :: "json \<Rightarrow> bool" where
  "spec_insight j =
     (schema_insight j \<and> (case tips_of j of Some ts \<Rightarrow> length ts = 3 | None \<Rightarrow> False))"

section \<open>The history buffer (App.tsx, the interval of lines 103-110)\<close>

text \<open>
  The updater passed to \<open>setUsageHistory\<close>: append the sample, and when the new array is
  longer than 20 return \<open>newData.slice(1)\<close>.
\<close>

definition recordHistory :: "UsageData \<Rightarrow> UsageData list \<Rightarrow> UsageData list" where
  "recordHistory sample prev =
     (let newData = prev @ [sample]
      in if length newData > 20 then drop 1 newData else newData)"

text \<open>The buffer after the samples \<open>xs\<close> were appended, in this order, to \<open>h\<close>.\<close>

fun appends :: "UsageData list \<Rightarrow> UsageData list \<Rightarrow> UsageData list" where
  "appends h [] = h"
| "appends h (x # xs) = appends (recordHistory x h) xs"

section \<open>Telemetry mirror (App.tsx, lines 77-88)\<close>

text \<open>
  The fields of the browser's \<open>BatteryManager\<close> that \<open>updateBatteryInfo\<close> reads
  (\<open>battery.level\<close> and so on; the prefix keeps them apart from \<open>BatteryStats\<close>).
\<close>

record BatteryManager =
  battery_level :: real
  battery_charging :: bool
  battery_chargingTime :: duration
  battery_dischargingTime :: duration

text \<open>\<open>Math.round\<close>: the nearest integer, a tie going to the larger one.\<close>

definition Math_round :: "real \<Rightarrow> int" where
  "Math_round x = \<lfloor>x + 1 / 2\<rfloor>"

text \<open>
  \<open>parseFloat(x.toFixed(d))\<close>: \<open>toFixed\<close> takes the integer \<open>n\<close> with \<open>n / 10^d\<close>
  nearest to \<open>x\<close>, the larger one of two (on the absolute value, the sign kept), and
  \<open>parseFloat\<close> reads the decimal back.
\<close>

definition parseFloat_toFixed :: "nat \<Rightarrow> real \<Rightarrow> real" where
  "parseFloat_toFixed d x =
     (if x < 0 then - (of_int \<lfloor>- x * 10 ^ d + 1 / 2\<rfloor> / 10 ^ d)
      else of_int \<lfloor>x * 10 ^ d + 1 / 2\<rfloor> / 10 ^ d)"

text \<open>
  The updater passed to \<open>setStats\<close>. \<open>r1\<close> and \<open>r2\<close> are the values of its two
  \<open>Math.random()\<close> calls, each in \<open>[0, 1)\<close>.
\<close>

definition updateBatteryInfo ::
    "BatteryManager \<Rightarrow> real \<Rightarrow> real \<Rightarrow> BatteryStats \<Rightarrow> BatteryStats" where
  "updateBatteryInfo battery r1 r2 prev =
     prev\<lparr>level := Math_round (battery_level battery * 100),
          charging := battery_charging battery,
          chargingTime := battery_chargingTime battery,
          dischargingTime := battery_dischargingTime battery,
          temperature := parseFloat_toFixed 1 (30 + r1 * 8),
          voltage := parseFloat_toFixed 2 (3.6 + r2 * 0.6)\<rparr>"

section \<open>The insight client (services/geminiService.ts)\<close>

text \<open>
  What the insight service did with one call, as \<open>getBatteryInsights\<close> observes it:
  \<^item> \<open>Rejected\<close>: \<open>generateContent\<close> threw or its promise was rejected;
  \<^item> \<open>Empty\<close>: it resolved and \<open>response.text\<close> is \<open>undefined\<close> or the empty string;
  \<^item> \<open>SyntaxError\<close>: the text is not empty and \<open>JSON.parse\<close> threw on it;
  \<^item> \<open>Parsed j\<close>: the text is not empty and \<open>JSON.parse\<close> returned \<open>j\<close>.
\<close>

datatype reply = Rejected | Empty | SyntaxError | Parsed json

text \<open>
  The value the promise of \<open>getBatteryInsights\<close> resolves to. The prompt built from the
  stats goes out with the call; the result depends on the reply alone. Nothing checks the
  parsed value: \<open>as BatteryInsight\<close> is a type assertion without run-time effect.
\<close>

definition getBatteryInsights :: "reply \<Rightarrow> json" where
  "getBatteryInsights r =
     (case r of
        Rejected \<Rightarrow> JNull
      | Empty \<Rightarrow> JNull
      | SyntaxError \<Rightarrow> JNull
      | Parsed j \<Rightarrow> j)"

text \<open>The fetches the specification calls failed: network error, empty response, parse error.\<close>

fun failed :: "reply \<Rightarrow> bool" where
  "failed Rejected = True"
| "failed Empty = True"
| "failed SyntaxError = True"
| "failed (Parsed j) = False"

section \<open>The component state and its handlers (App.tsx)\<close>

text \<open>
  The state of \<open>App\<close>: its \<open>useState\<close> cells and the ref \<open>lastFetchedLevel\<close>
  (\<open>None\<close> is \<open>null\<close>). Two fields are bookkeeping of the model: \<open>requests\<close> lists the
  stats of every \<open>getBatteryInsights\<close> call made so far, \<open>pending\<close> counts the calls
  whose promise has not settled yet.
\<close>

record App =
  stats :: BatteryStats
  insight :: json
  loadingInsight :: bool
  usageHistory :: "UsageData list"
  lastFetchedLevel :: "int option"
  isOnline :: bool
  requests :: "BatteryStats list"
  pending :: nat

text \<open>The initial values of lines 10-25; \<open>online\<close> is \<open>navigator.onLine\<close>.\<close>

definition initial :: "bool \<Rightarrow> App" where
  "initial online =
     \<lparr>stats = \<lparr>level = 100, charging = False, chargingTime = Seconds 0,
                dischargingTime = Seconds 0, temperature = 32.4, voltage = 3.8,
                health = Good\<rparr>,
      insight = JNull,
      loadingInsight = False,
      usageHistory = [],
      lastFetchedLevel = None,
      isOnline = online,
      requests = [],
      pending = 0\<rparr>"

text \<open>
  \<open>fetchInsights\<close> (lines 130-136) up to its \<open>await\<close>: return when offline, else set
  the loading flag and call \<open>getBatteryInsights(stats)\<close>.
\<close>

definition fetchInsights :: "App \<Rightarrow> App" where
  "fetchInsights s =
     (if \<not> isOnline s then s
      else s\<lparr>loadingInsight := True,
             requests := requests s @ [stats s],
             pending := Suc (pending s)\<rparr>)"

text \<open>
  \<open>fetchInsights\<close> after its \<open>await\<close>, \<open>data\<close> being the value the promise resolved
  to: \<open>if (data) setInsight(data); setLoadingInsight(false)\<close>.
\<close>

definition fetchInsights_resume :: "json \<Rightarrow> App \<Rightarrow> App" where
  "fetchInsights_resume data s =
     (let s' = (if truthy data then s\<lparr>insight := data\<rparr> else s)
      in s'\<lparr>loadingInsight := False\<rparr>)"

text \<open>The effect of lines 138-144, run after a render in which its dependencies changed.\<close>

definition debounceEffect :: "App \<Rightarrow> App" where
  "debounceEffect s =
     (if isOnline s \<and>
         (case lastFetchedLevel s of
            None \<Rightarrow> True
          | Some l \<Rightarrow> \<bar>l - level (stats s)\<bar> \<ge> 5)
      then (fetchInsights s)\<lparr>lastFetchedLevel := Some (level (stats s))\<rparr>
      else s)"

text \<open>The first render, followed by its effects.\<close>

definition mount :: "bool \<Rightarrow> App" where
  "mount online = debounceEffect (initial online)"

text \<open>
  A battery event: \<open>setStats\<close> with the updater, a render, and the effect when
  \<open>stats.level\<close>, its only dependency that \<open>setStats\<close> can change, has changed.
  Here and below an event is rendered, and the effects of that render have run, before
  the next event is handled; the closures a handler runs are those of the latest render,
  so \<open>stats\<close> and \<open>isOnline\<close> in them are the current state.
\<close>

definition telemetry :: "BatteryManager \<Rightarrow> real \<Rightarrow> real \<Rightarrow> App \<Rightarrow> App" where
  "telemetry battery r1 r2 s =
     (let s' = s\<lparr>stats := updateBatteryInfo battery r1 r2 (stats s)\<rparr>
      in if level (stats s') \<noteq> level (stats s) then debounceEffect s' else s')"

text \<open>\<open>handleOnline\<close> and \<open>handleOffline\<close>: \<open>setIsOnline\<close>, a render, the effect.\<close>

definition setIsOnline :: "bool \<Rightarrow> App \<Rightarrow> App" where
  "setIsOnline v s =
     (let s' = s\<lparr>isOnline := v\<rparr>
      in if isOnline s' \<noteq> isOnline s then debounceEffect s' else s')"

text \<open>A tick of the 5 second interval; \<open>now\<close> is the formatted time of day.\<close>

definition historyTick :: "string \<Rightarrow> App \<Rightarrow> App" where
  "historyTick now s =
     s\<lparr>usageHistory :=
         recordHistory \<lparr>usage_time = now, usage_level = level (stats s)\<rparr> (usageHistory s)\<rparr>"

text \<open>
  A click on the Deep Analyze button (lines 192-194): a disabled button dispatches no
  click, an enabled one runs \<open>fetchInsights\<close>.
\<close>

definition deepAnalyzeClick :: "App \<Rightarrow> App" where
  "deepAnalyzeClick s =
     (if loadingInsight s \<or> \<not> isOnline s then s else fetchInsights s)"

text \<open>The promise of one pending call settles; no promise settles when none is pending.\<close>

definition response :: "reply \<Rightarrow> App \<Rightarrow> App" where
  "response r s =
     (if pending s = 0 then s
      else fetchInsights_resume (getBatteryInsights r) (s\<lparr>pending := pending s - 1\<rparr>))"

datatype event =
    Telemetry BatteryManager real real
  | HistoryTick string
  | Online
  | Offline
  | DeepAnalyze
  | Response reply

fun step :: "event \<Rightarrow> App \<Rightarrow> App" where
  "step (Telemetry battery r1 r2) s = telemetry battery r1 r2 s"
| "step (HistoryTick now) s = historyTick now s"
| "step Online s = setIsOnline True s"
| "step Offline s = setIsOnline False s"
| "step DeepAnalyze s = deepAnalyzeClick s"
| "step (Response r) s = response r s"

fun run :: "event list \<Rightarrow> App \<Rightarrow> App" where
  "run [] s = s"
| "run (e # es) s = run es (step e s)"

text \<open>The component after it was mounted and the events \<open>es\<close> happened, in this order.\<close>

definition app_after :: "bool \<Rightarrow> event list \<Rightarrow> App" where
  "app_after online es = run es (mount online)"

section \<open>Observations the properties are stated on\<close>

text \<open>The level a battery event displays.\<close>

definition new_level :: "BatteryManager \<times> real \<times> real \<Rightarrow> int" where
  "new_level u = (case u of (battery, r1, r2) \<Rightarrow> Math_round (battery_level battery * 100))"

text \<open>
  For a sequence of battery events, each given as the battery and the two random draws,
  whether each of them made the component call \<open>getBatteryInsights\<close>.
\<close>

fun triggers :: "App \<Rightarrow> (BatteryManager \<times> real \<times> real) list \<Rightarrow> bool list" where
  "triggers s [] = []"
| "triggers s ((battery, r1, r2) # us) =
     (let s' = telemetry battery r1 r2 s
      in (requests s' \<noteq> requests s) # triggers s' us)"

text \<open>
  The debounce rule in the specification's words: with \<open>l0\<close> the level recorded at the
  most recent trigger (\<open>None\<close> when no fetch has occurred), an update to \<open>l1\<close> triggers
  iff no fetch has occurred or \<open>|l1 - l0| \<ge> 5\<close>, and a trigger records \<open>l1\<close>.
\<close>

fun spec_triggers :: "int option \<Rightarrow> int list \<Rightarrow> bool list" where
  "spec_triggers l0 [] = []"
| "spec_triggers l0 (l1 # ls) =
     (let t = (case l0 of None \<Rightarrow> True | Some l \<Rightarrow> \<bar>l1 - l\<bar> \<ge> 5)
      in t # spec_triggers (if t then Some l1 else l0) ls)"

text \<open>
  The samples the interval ticks among the events \<open>es\<close> record, oldest first, when the
  events happen to the component in state \<open>s\<close>.
\<close>

fun samples :: "event list \<Rightarrow> App \<Rightarrow> UsageData list" where
  "samples [] s = []"
| "samples (HistoryTick now # es) s =
     \<lparr>usage_time = now, usage_level = level (stats s)\<rparr> # samples es (step (HistoryTick now) s)"
| "samples (e # es) s = samples es (step e s)"

text \<open>A battery event whose \<open>battery.level\<close> is in the interval the Battery Status API promises.\<close>

fun level_in_unit :: "event \<Rightarrow> bool" where
  "level_in_unit (Telemetry battery r1 r2) = (0 \<le> battery_level battery \<and> battery_level battery \<le> 1)"
| "level_in_unit e = True"

text \<open>
  What holds of the component between events: while online the effect has run for the
  level on display, so a level was recorded and is less than 5 away from it; a level is
  recorded iff a call was made; the loading flag is set only while a call is pending.
\<close>

definition settled :: "App \<Rightarrow> bool" where
  "settled s =
     ((isOnline s \<longrightarrow>
         (case lastFetchedLevel s of None \<Rightarrow> False | Some l \<Rightarrow> \<bar>l - level (stats s)\<bar> < 5)) \<and>
      ((lastFetchedLevel s = None) = (requests s = [])) \<and>
      (loadingInsight s \<longrightarrow> 0 < pending s))"

text \<open>Concrete inputs: a battery at a given fraction, and two replies of the service.\<close>

definition battery_at :: "real \<Rightarrow> BatteryManager" where
  "battery_at x =
     \<lparr>battery_level = x, battery_charging = False, battery_chargingTime = Infinity,
      battery_dischargingTime = Seconds 3600\<rparr>"

definition insight_three_tips :: json where
  "insight_three_tips =
     JObj [(''status'', JStr ''ok''), (''recommendation'', JStr ''none''),
           (''estimatedLifeRemaining'', JStr ''4 hours''),
           (''optimizationTips'', JArr [JStr ''a'', JStr ''b'', JStr ''c''])]"

definition insight_two_tips :: json where
  "insight_two_tips =
     JObj [(''status'', JStr ''ok''), (''recommendation'', JStr ''none''),
           (''estimatedLifeRemaining'', JStr ''4 hours''),
           (''optimizationTips'', JArr [JStr ''a'', JStr ''b''])]"

section \<open>Properties\<close>

lemmas handler_defs =
  telemetry_def setIsOnline_def historyTick_def deepAnalyzeClick_def response_def
  fetchInsights_resume_def debounceEffect_def fetchInsights_def

subsection \<open>The history buffer\<close>

lemma length_recordHistory:
  "length h \<le> 20 \<Longrightarrow> length (recordHistory x h) \<le> 20"
  by (cases "length h = 20") (simp_all add: recordHistory_def Let_def)

lemma appends_drop:
  "length h \<le> 20 \<Longrightarrow> appends h xs = drop (length h + length xs - 20) (h @ xs)"
proof (induction xs arbitrary: h)
  case Nil
  then show ?case by simp
next
  case (Cons x xs)
  have len: "length (recordHistory x h) \<le> 20"
    using Cons.prems by (rule length_recordHistory)
  show ?case
  proof (cases "length h = 20")
    case True
    then have rh: "recordHistory x h = drop 1 h @ [x]"
      by (simp add: recordHistory_def Let_def)
    have "appends h (x # xs) = appends (recordHistory x h) xs" by simp
    also have "\<dots> = drop (length (recordHistory x h) + length xs - 20) (recordHistory x h @ xs)"
      using len by (rule Cons.IH)
    also have "\<dots> = drop (length xs) (drop 1 h @ x # xs)"
      using True by (simp add: rh)
    also have "\<dots> = drop (length xs) (drop 1 (h @ x # xs))"
      using True by simp
    also have "\<dots> = drop (length h + length (x # xs) - 20) (h @ x # xs)"
      using True by (simp del: drop_append)
    finally show ?thesis .
  next
    case False
    with Cons.prems have lt: "length h < 20" by simp
    then have rh: "recordHistory x h = h @ [x]"
      by (simp add: recordHistory_def Let_def)
    have "appends h (x # xs) = appends (recordHistory x h) xs" by simp
    also have "\<dots> = drop (length (recordHistory x h) + length xs - 20) (recordHistory x h @ xs)"
      using len by (rule Cons.IH)
    also have "\<dots> = drop (length h + length (x # xs) - 20) (h @ x # xs)"
      by (simp add: rh)
    finally show ?thesis .
  qed
qed

lemma usageHistory_step:
  "usageHistory (step e s) =
     (case e of
        HistoryTick now \<Rightarrow>
          recordHistory \<lparr>usage_time = now, usage_level = level (stats s)\<rparr> (usageHistory s)
      | _ \<Rightarrow> usageHistory s)"
  by (cases e) (simp_all add: handler_defs Let_def)

lemma usageHistory_run:
  "usageHistory (run es s) = appends (usageHistory s) (samples es s)"
proof (induction es arbitrary: s)
  case Nil
  then show ?case by simp
next
  case (Cons e es)
  show ?case
    using usageHistory_step[of e s] by (cases e) (simp_all add: Cons.IH)
qed

lemma usageHistory_mount: "usageHistory (mount online) = []"
  by (simp add: mount_def initial_def debounceEffect_def fetchInsights_def)

lemma recordHistory_evicts_one:
  "recordHistory x h = (if length h < 20 then h @ [x] else drop 1 h @ [x])"
  by (cases h) (simp_all add: recordHistory_def Let_def)

text \<open>
  C2. Whatever events happen to the mounted component, the history buffer is the last
  \<open>min n 20\<close> of the \<open>n\<close> samples its interval ticks recorded, in their order, so
  its length never exceeds 20; and one append drops nothing while fewer than 20 samples
  are held and exactly the oldest sample otherwise.
\<close>

theorem history_buffer_fifo:
  "usageHistory (app_after online es) =
     drop (length (samples es (mount online)) - 20) (samples es (mount online)) \<and>
   length (usageHistory (app_after online es)) = min (length (samples es (mount online))) 20 \<and>
   recordHistory x h = (if length h < 20 then h @ [x] else drop 1 h @ [x])"
proof -
  have eq: "usageHistory (app_after online es) =
     drop (length (samples es (mount online)) - 20) (samples es (mount online))"
    by (simp add: app_after_def usageHistory_run usageHistory_mount appends_drop)
  have len: "length (usageHistory (app_after online es)) = min (length (samples es (mount online))) 20"
    by (simp add: eq)
  show ?thesis
    using eq len recordHistory_evicts_one by blast
qed

text \<open>After 25 ticks, named by their number in unary, ticks 6 to 25 are held in order.\<close>

lemma history_25_ticks:
  "map usage_time (usageHistory (app_after True (map (\<lambda>n. HistoryTick (replicate n CHR ''I'')) [1..<26])))
     = map (\<lambda>n. replicate n CHR ''I'') [6..<26]"
  by code_simp

subsection \<open>The displayed level\<close>

lemma Math_round_unit:
  "0 \<le> x \<Longrightarrow> x \<le> 1 \<Longrightarrow> 0 \<le> Math_round (x * 100) \<and> Math_round (x * 100) \<le> 100"
  unfolding Math_round_def by (simp add: le_floor_iff floor_le_iff) 

lemma level_step:
  "level (stats (step e s)) =
     (case e of Telemetry b r1 r2 \<Rightarrow> Math_round (battery_level b * 100) | _ \<Rightarrow> level (stats s))"
  by (cases e) (simp_all add: handler_defs updateBatteryInfo_def Let_def)

lemma level_run:
  "\<forall>e \<in> set es. level_in_unit e \<Longrightarrow> 0 \<le> level (stats s) \<and> level (stats s) \<le> 100 \<Longrightarrow>
   0 \<le> level (stats (run es s)) \<and> level (stats (run es s)) \<le> 100"
proof (induction es arbitrary: s)
  case Nil
  then show ?case by simp
next
  case (Cons e es)
  have "0 \<le> level (stats (step e s)) \<and> level (stats (step e s)) \<le> 100"
  proof (cases e)
    case (Telemetry b r1 r2)
    with Cons.prems(1) have "0 \<le> battery_level b" "battery_level b \<le> 1" by simp_all
    then show ?thesis
      using Math_round_unit[of "battery_level b"] level_step[of e s] by (simp add: Telemetry)
  qed (use Cons.prems(2) level_step[of e s] in simp_all)
  moreover have "\<forall>e \<in> set es. level_in_unit e" using Cons.prems(1) by simp
  ultimately show ?case using Cons.IH by simp
qed

lemma level_mount: "level (stats (mount online)) = 100"
  by (simp add: mount_def initial_def debounceEffect_def fetchInsights_def)

text \<open>
  C9. The initial level is 100, every battery event sets the level to
  \<open>Math.round(battery.level * 100)\<close>, and after any sequence of events whose battery
  events report a \<open>battery.level\<close> in \<open>[0, 1]\<close> the displayed level is in
  \<open>[0, 100]\<close>.
\<close>

theorem level_in_range:
  "\<forall>e \<in> set es. level_in_unit e \<Longrightarrow>
   level (stats (initial online)) = 100 \<and>
   0 \<le> level (stats (app_after online es)) \<and> level (stats (app_after online es)) \<le> 100 \<and>
   level (stats (telemetry battery r1 r2 s)) = Math_round (battery_level battery * 100)"
proof -
  assume a: "\<forall>e \<in> set es. level_in_unit e"
  have 1: "level (stats (initial online)) = 100" by (simp add: initial_def)
  have 2: "0 \<le> level (stats (app_after online es)) \<and> level (stats (app_after online es)) \<le> 100"
    unfolding app_after_def using a by (rule level_run) (simp add: level_mount)
  have 3: "level (stats (telemetry battery r1 r2 s)) = Math_round (battery_level battery * 100)"
    using level_step[of "Telemetry battery r1 r2" s] by simp
  show ?thesis using 1 2 3 by blast
qed

theorem level_in_range_witness:
  "level_in_unit (Telemetry (battery_at 0.94) 0.5 0.5) \<and>
   level (stats (app_after True [Telemetry (battery_at 0.94) 0.5 0.5, HistoryTick ''10:00''])) = 94"
proof -
  have h: "\<forall>e \<in> set [Telemetry (battery_at 0.94) 0.5 0.5, HistoryTick ''10:00'']. level_in_unit e"
    by (simp add: battery_at_def)
  have "level (stats (app_after True [Telemetry (battery_at 0.94) 0.5 0.5, HistoryTick ''10:00''])) = 94"
    by (simp add: app_after_def mount_def initial_def handler_defs updateBatteryInfo_def
        battery_at_def Math_round_def Let_def)
  then show ?thesis using level_in_range[OF h, of True] by (simp add: battery_at_def)
qed

subsection \<open>The resampled temperature and voltage\<close>

lemma round_between:
  fixes y :: real and a b :: int
  assumes "of_int a \<le> y" "y \<le> of_int b"
  shows "a \<le> \<lfloor>y + 1 / 2\<rfloor> \<and> \<lfloor>y + 1 / 2\<rfloor> \<le> b"
proof -
  have "of_int a \<le> y + 1 / 2" using assms(1) by simp
  then have lo: "a \<le> \<lfloor>y + 1 / 2\<rfloor>" by (simp add: le_floor_iff)
  have "y + 1 / 2 < of_int b + 1" using assms(2) by simp
  then have "\<lfloor>y + 1 / 2\<rfloor> \<le> b" by (simp only: floor_le_iff)
  then show ?thesis using lo by simp
qed

lemma stats_telemetry:
  "stats (telemetry battery r1 r2 s) = updateBatteryInfo battery r1 r2 (stats s)"
  by (simp add: handler_defs Let_def)

lemma temperature_closed_range:
  assumes "0 \<le> r" "r < 1"
  shows "30 \<le> parseFloat_toFixed 1 (30 + r * 8) \<and> parseFloat_toFixed 1 (30 + r * 8) \<le> 38"
proof -
  have "of_int 300 \<le> (30 + r * 8) * 10" "(30 + r * 8) * 10 \<le> of_int 380"
    using assms by simp_all
  then have "300 \<le> \<lfloor>(30 + r * 8) * 10 + 1 / 2\<rfloor> \<and> \<lfloor>(30 + r * 8) * 10 + 1 / 2\<rfloor> \<le> 380"
    by (rule round_between)
  then have "(300::real) \<le> of_int \<lfloor>(30 + r * 8) * 10 + 1 / 2\<rfloor>"
    "of_int \<lfloor>(30 + r * 8) * 10 + 1 / 2\<rfloor> \<le> (380::real)"
    by linarith+
  moreover have "\<not> 30 + r * 8 < 0" using assms by simp
  ultimately show ?thesis by (simp add: parseFloat_toFixed_def)
qed

lemma voltage_closed_range:
  assumes "0 \<le> r" "r < 1"
  shows "3.6 \<le> parseFloat_toFixed 2 (3.6 + r * 0.6) \<and> parseFloat_toFixed 2 (3.6 + r * 0.6) \<le> 4.2"
proof -
  have "of_int 360 \<le> (3.6 + r * 0.6) * 10 ^ 2" "(3.6 + r * 0.6) * 10 ^ 2 \<le> of_int 420"
    using assms by simp_all
  then have "360 \<le> \<lfloor>(3.6 + r * 0.6) * 10 ^ 2 + 1 / 2\<rfloor> \<and> \<lfloor>(3.6 + r * 0.6) * 10 ^ 2 + 1 / 2\<rfloor> \<le> 420"
    by (rule round_between)
  then have "(360::real) \<le> of_int \<lfloor>(3.6 + r * 0.6) * 10 ^ 2 + 1 / 2\<rfloor>"
    "of_int \<lfloor>(3.6 + r * 0.6) * 10 ^ 2 + 1 / 2\<rfloor> \<le> (420::real)"
    by linarith+
  moreover have "\<not> 3.6 + r * 0.6 < 0" using assms by simp
  ultimately show ?thesis by (simp add: parseFloat_toFixed_def)
qed

text \<open>
  C10, as stated, fails. With both random draws equal to \<open>255/256\<close>, a value of
  \<open>[0, 1)\<close>, \<open>30 + r * 8\<close> is 37.96875 and \<open>toFixed(1)\<close> rounds it to 38.0;
  \<open>3.6 + r * 0.6\<close> is 4.19765625 and \<open>toFixed(2)\<close> rounds it to 4.20. The upper
  ends 38 and 4.2 are reached.
\<close>

theorem resampled_ranges_counterexample:
  "(0::real) \<le> 255 / 256 \<and> (255 / 256 :: real) < 1 \<and>
   temperature (stats (telemetry (battery_at 0.5) (255 / 256) (255 / 256) (mount True))) = 38 \<and>
   \<not> temperature (stats (telemetry (battery_at 0.5) (255 / 256) (255 / 256) (mount True))) < 38 \<and>
   voltage (stats (telemetry (battery_at 0.5) (255 / 256) (255 / 256) (mount True))) = 4.2 \<and>
   \<not> voltage (stats (telemetry (battery_at 0.5) (255 / 256) (255 / 256) (mount True))) < 4.2"
  by (simp add: stats_telemetry updateBatteryInfo_def parseFloat_toFixed_def)

text \<open>
  C10, amended. On every battery event whose random draws are in \<open>[0, 1)\<close>, the
  resampled temperature lies in the closed range \<open>[30, 38]\<close> and the resampled voltage
  in the closed range \<open>[3.6, 4.2]\<close>.
\<close>

theorem resampled_ranges_closed:
  assumes "0 \<le> r1" "r1 < 1" "0 \<le> r2" "r2 < 1"
  shows "30 \<le> temperature (stats (telemetry battery r1 r2 s)) \<and>
         temperature (stats (telemetry battery r1 r2 s)) \<le> 38 \<and>
         3.6 \<le> voltage (stats (telemetry battery r1 r2 s)) \<and>
         voltage (stats (telemetry battery r1 r2 s)) \<le> 4.2"
  using temperature_closed_range[OF assms(1,2)] voltage_closed_range[OF assms(3,4)]
  by (simp add: stats_telemetry updateBatteryInfo_def)

text \<open>
  The amended C10 at the draws \<open>1/2\<close>: 34 degrees and 3.9 volts.
\<close>

theorem resampled_ranges_closed_witness:
  "(0::real) \<le> 1 / 2 \<and> (1 / 2 :: real) < 1 \<and>
   temperature (stats (telemetry (battery_at 0.5) (1 / 2) (1 / 2) (mount True))) = 34 \<and>
   voltage (stats (telemetry (battery_at 0.5) (1 / 2) (1 / 2) (mount True))) = 3.9"
proof -
  have h: "(0::real) \<le> 1 / 2" "(1 / 2 :: real) < 1" by simp_all
  have v: "temperature (stats (telemetry (battery_at 0.5) (1 / 2) (1 / 2) (mount True))) = 34 \<and>
   voltage (stats (telemetry (battery_at 0.5) (1 / 2) (1 / 2) (mount True))) = 3.9"
    by (simp add: stats_telemetry updateBatteryInfo_def parseFloat_toFixed_def)
  show ?thesis
    using resampled_ranges_closed[OF h h, of "battery_at 0.5" "mount True"] v by simp
qed

subsection \<open>The insight client\<close>

text \<open>
  C6, as stated, fails. For the response text \<open>{}\<close>, which lacks every field of the
  schema, \<open>getBatteryInsights\<close> returns the parsed object and not \<open>null\<close>; and a
  response that has the schema's four fields but two tips is returned as well.
\<close>

theorem getBatteryInsights_schema_counterexample:
  "getBatteryInsights (Parsed (JObj [])) = JObj [] \<and>
   getBatteryInsights (Parsed (JObj [])) \<noteq> JNull \<and>
   \<not> schema_insight (JObj []) \<and>
   schema_insight insight_two_tips \<and>
   getBatteryInsights (Parsed insight_two_tips) \<noteq> JNull \<and>
   \<not> spec_insight (getBatteryInsights (Parsed insight_two_tips))"
  by (simp add: getBatteryInsights_def schema_insight_def spec_insight_def has_string_def
      tips_of_def jget_def insight_two_tips_def)

text \<open>
  C6, amended. \<open>getBatteryInsights\<close> returns \<open>null\<close> exactly when the call failed,
  the response text is empty, the text is not JSON, or the text is the JSON \<open>null\<close>;
  every other response is returned as parsed, unchecked.
\<close>

theorem getBatteryInsights_returns_parsed:
  "(getBatteryInsights r = JNull) = (failed r \<or> r = Parsed JNull) \<and>
   getBatteryInsights (Parsed j) = j"
  by (cases r) (simp_all add: getBatteryInsights_def)

subsection \<open>Failed fetches\<close>

lemma insight_response_failed: "failed r \<Longrightarrow> insight (response r s) = insight s"
  by (cases r) (simp_all add: response_def fetchInsights_resume_def getBatteryInsights_def Let_def)

text \<open>
  C4. When a fetch fails (the call is rejected, the response is empty, or its text does
  not parse), the insight the component holds after the fetch completed is the one it
  held before.
\<close>

theorem failed_fetch_keeps_insight:
  "failed r \<Longrightarrow> insight (response r s) = insight s \<and> insight (step (Response r) s) = insight s"
  by (simp add: insight_response_failed)

lemma after_success:
  "app_after True [Response (Parsed insight_three_tips), DeepAnalyze] =
     (mount True)\<lparr>insight := insight_three_tips,
                  requests := [stats (initial True), stats (initial True)]\<rparr>"
  by (simp add: app_after_def mount_def initial_def handler_defs getBatteryInsights_def
      insight_three_tips_def Let_def)

text \<open>
  C4 at a component that shows an insight and has a second call pending, which is
  rejected.
\<close>

theorem failed_fetch_keeps_insight_witness:
  "failed Rejected \<and>
   pending (app_after True [Response (Parsed insight_three_tips), DeepAnalyze]) = 1 \<and>
   insight (response Rejected (app_after True [Response (Parsed insight_three_tips), DeepAnalyze]))
     = insight_three_tips"
proof -
  have h: "failed Rejected" by simp
  show ?thesis
    using failed_fetch_keeps_insight[OF h,
        of "app_after True [Response (Parsed insight_three_tips), DeepAnalyze]"]
    by (simp add: after_success mount_def initial_def debounceEffect_def fetchInsights_def)
qed




subsection \<open>The connectivity and loading guards\<close>

text \<open>
  C3. While the connectivity flag is false, neither a battery event, whatever level it
  reports, nor a click on the button, nor \<open>fetchInsights\<close> or the effect themselves
  make a call.
\<close>

theorem offline_no_fetch:
  "\<not> isOnline s \<Longrightarrow>
   requests (telemetry battery r1 r2 s) = requests s \<and>
   pending (telemetry battery r1 r2 s) = pending s \<and>
   deepAnalyzeClick s = s \<and> fetchInsights s = s \<and> debounceEffect s = s"
  by (simp add: handler_defs Let_def)

text \<open>
  C3 at a component mounted offline: the level drops from 100 to 50 and no call is made.
\<close>

theorem offline_no_fetch_witness:
  "\<not> isOnline (mount False) \<and>
   level (stats (telemetry (battery_at 0.5) 0 0 (mount False))) = 50 \<and>
   requests (telemetry (battery_at 0.5) 0 0 (mount False)) = [] \<and>
   requests (deepAnalyzeClick (mount False)) = []"
proof -
  have h: "\<not> isOnline (mount False)"
    by (simp add: mount_def initial_def debounceEffect_def)
  have r: "requests (mount False) = []"
    by (simp add: mount_def initial_def debounceEffect_def)
  have l: "level (stats (telemetry (battery_at 0.5) 0 0 (mount False))) = 50"
    by (simp add: stats_telemetry updateBatteryInfo_def battery_at_def Math_round_def)
  show ?thesis using offline_no_fetch[OF h, of "battery_at 0.5" 0 0] h r l by simp
qed

text \<open>
  Whichever event makes a call, the connectivity flag is true once the event is handled.
\<close>

lemma fetch_only_online:
  "requests (step e s) \<noteq> requests s \<Longrightarrow> isOnline (step e s)"
  by (cases e) (auto simp add: handler_defs Let_def split: if_splits)

subsection \<open>The debounce\<close>

text \<open>
  The invariant \<open>settled\<close> holds after mounting and is kept by every event.
\<close>

lemma settled_mount: "settled (mount online)"
  by (simp add: settled_def mount_def initial_def debounceEffect_def fetchInsights_def)

lemma settled_debounceEffect:
  assumes "(lastFetchedLevel s = None) = (requests s = [])" "loadingInsight s \<longrightarrow> 0 < pending s"
  shows "settled (debounceEffect s)"
  using assms
  by (auto simp add: settled_def debounceEffect_def fetchInsights_def split: option.splits)

lemma settled_telemetry: "settled s \<Longrightarrow> settled (telemetry battery r1 r2 s)"
proof -
  assume a: "settled s"
  let ?s' = "s\<lparr>stats := updateBatteryInfo battery r1 r2 (stats s)\<rparr>"
  show ?thesis
  proof (cases "level (stats ?s') \<noteq> level (stats s)")
    case True
    have "settled (debounceEffect ?s')"
      using a by (intro settled_debounceEffect) (simp_all add: settled_def)
    then show ?thesis using True by (simp add: telemetry_def Let_def)
  next
    case False
    then have "telemetry battery r1 r2 s = ?s'" by (simp add: telemetry_def Let_def)
    moreover have "settled ?s'" using a False by (auto simp add: settled_def split: option.splits)
    ultimately show ?thesis by simp
  qed
qed

lemma settled_setIsOnline: "settled s \<Longrightarrow> settled (setIsOnline v s)"
proof -
  assume a: "settled s"
  show ?thesis
  proof (cases "v = isOnline s")
    case True
    then have "setIsOnline v s = s" by (simp add: setIsOnline_def Let_def)
    then show ?thesis using a by simp
  next
    case False
    have "settled (debounceEffect (s\<lparr>isOnline := v\<rparr>))"
      using a by (intro settled_debounceEffect) (simp_all add: settled_def)
    then show ?thesis using False by (simp add: setIsOnline_def Let_def)
  qed
qed

lemma settled_step: "settled s \<Longrightarrow> settled (step e s)"
proof (cases e)
  case (Telemetry b r1 r2)
  assume "settled s"
  then show ?thesis using Telemetry by (simp add: settled_telemetry)
next
  case (HistoryTick now)
  assume "settled s"
  then show ?thesis using HistoryTick
    by (auto simp add: settled_def historyTick_def split: option.splits)
next
  case Online
  assume "settled s"
  then show ?thesis using Online by (simp add: settled_setIsOnline)
next
  case Offline
  assume "settled s"
  then show ?thesis using Offline by (simp add: settled_setIsOnline)
next
  case DeepAnalyze
  assume "settled s"
  then show ?thesis using DeepAnalyze
    by (auto simp add: settled_def deepAnalyzeClick_def fetchInsights_def split: option.splits)
next
  case (Response r)
  assume "settled s"
  then show ?thesis using Response
    by (auto simp add: settled_def response_def fetchInsights_resume_def Let_def
        split: option.splits)
qed

lemma settled_run: "settled s \<Longrightarrow> settled (run es s)"
  by (induction es arbitrary: s) (simp_all add: settled_step)

lemma settled_app_after: "settled (app_after online es)"
  by (simp add: app_after_def settled_run settled_mount)

text \<open>
  One battery event in a settled online state: a level is recorded, the event makes a
  call iff the new level is at least 5 away from it, and then the new level is recorded.
\<close>

lemma telemetry_while_online:
  assumes "settled s" "isOnline s"
  shows "\<exists>l0. lastFetchedLevel s = Some l0 \<and>
           (requests (telemetry battery r1 r2 s) \<noteq> requests s) =
             (\<bar>Math_round (battery_level battery * 100) - l0\<bar> \<ge> 5) \<and>
           lastFetchedLevel (telemetry battery r1 r2 s) =
             (if \<bar>Math_round (battery_level battery * 100) - l0\<bar> \<ge> 5
              then Some (Math_round (battery_level battery * 100)) else Some l0) \<and>
           isOnline (telemetry battery r1 r2 s)"
proof -
  from assms obtain l0 where l0: "lastFetchedLevel s = Some l0" "\<bar>l0 - level (stats s)\<bar> < 5"
    by (auto simp add: settled_def split: option.splits)
  let ?l1 = "Math_round (battery_level battery * 100)"
  show ?thesis
  proof (cases "?l1 = level (stats s)")
    case True
    then have "\<not> \<bar>?l1 - l0\<bar> \<ge> 5" using l0(2) by simp
    then show ?thesis using True l0 assms(2)
      by (simp add: telemetry_def updateBatteryInfo_def Let_def)
  next
    case False
    have abs: "\<bar>l0 - ?l1\<bar> = \<bar>?l1 - l0\<bar>" by simp
    show ?thesis using False l0(1) assms(2)
      by (simp add: telemetry_def updateBatteryInfo_def debounceEffect_def fetchInsights_def
          Let_def abs)
  qed
qed

lemma new_level_triple [simp]:
  "new_level (battery, r1, r2) = Math_round (battery_level battery * 100)"
  by (simp add: new_level_def)

lemma triggers_settled:
  "settled s \<Longrightarrow> isOnline s \<Longrightarrow>
   triggers s us = spec_triggers (lastFetchedLevel s) (map new_level us)"
proof (induction us arbitrary: s)
  case Nil
  then show ?case by simp
next
  case (Cons u us)
  obtain battery r1 r2 where u: "u = (battery, r1, r2)" by (cases u)
  let ?s' = "telemetry battery r1 r2 s"
  let ?l1 = "Math_round (battery_level battery * 100)"
  from telemetry_while_online[OF Cons.prems, of battery r1 r2]
  obtain l0 where l0: "lastFetchedLevel s = Some l0"
    and tr: "(requests ?s' \<noteq> requests s) = (\<bar>?l1 - l0\<bar> \<ge> 5)"
    and last: "lastFetchedLevel ?s' = (if \<bar>?l1 - l0\<bar> \<ge> 5 then Some ?l1 else Some l0)"
    and on: "isOnline ?s'"
    by blast
  have "settled ?s'" using Cons.prems(1) by (rule settled_telemetry)
  then have IH: "triggers ?s' us = spec_triggers (lastFetchedLevel ?s') (map new_level us)"
    using on by (rule Cons.IH)
  show ?case
    using tr last by (simp add: u l0 IH Let_def)
qed

text \<open>
  C1. Take the component after any events, online. For every sequence of battery events
  that follows, the events that make an insight call are those the rule of the
  specification selects, started from the level the component has recorded; and no level
  is recorded iff no call was ever made.
\<close>

theorem debounce_follows_rule:
  "isOnline (app_after online es) \<Longrightarrow>
   triggers (app_after online es) us =
     spec_triggers (lastFetchedLevel (app_after online es)) (map new_level us) \<and>
   (lastFetchedLevel (app_after online es) = None) = (requests (app_after online es) = [])"
proof -
  assume on: "isOnline (app_after online es)"
  have st: "settled (app_after online es)" by (rule settled_app_after)
  have "triggers (app_after online es) us =
      spec_triggers (lastFetchedLevel (app_after online es)) (map new_level us)"
    using st on by (rule triggers_settled)
  moreover have "(lastFetchedLevel (app_after online es) = None) =
      (requests (app_after online es) = [])"
    using st by (simp add: settled_def)
  ultimately show ?thesis by (rule conjI)
qed

text \<open>
  C1 at the example of the specification: mounted online at level 100, the updates to
  94, 91 and 88 trigger, do not trigger, and trigger.
\<close>

theorem debounce_follows_rule_witness:
  "isOnline (app_after True []) \<and>
   lastFetchedLevel (app_after True []) = Some 100 \<and>
   map new_level [(battery_at 0.94, 0, 0), (battery_at 0.91, 0, 0), (battery_at 0.88, 0, 0)]
     = [94, 91, 88] \<and>
   triggers (app_after True [])
     [(battery_at 0.94, 0, 0), (battery_at 0.91, 0, 0), (battery_at 0.88, 0, 0)]
     = [True, False, True]"
proof -
  have h: "isOnline (app_after True [])"
    by (simp add: app_after_def mount_def initial_def debounceEffect_def fetchInsights_def)
  have l: "lastFetchedLevel (app_after True []) = Some 100"
    by (simp add: app_after_def mount_def initial_def debounceEffect_def fetchInsights_def)
  have m: "map new_level [(battery_at 0.94, 0, 0), (battery_at 0.91, 0, 0), (battery_at 0.88, 0, 0)]
     = [94, 91, 88]"
    by (simp add: battery_at_def Math_round_def)
  have t: "triggers (app_after True [])
     [(battery_at 0.94, 0, 0), (battery_at 0.91, 0, 0), (battery_at 0.88, 0, 0)]
     = spec_triggers (Some 100) [94, 91, 88]"
    using debounce_follows_rule[OF h,
        of "[(battery_at 0.94, 0, 0), (battery_at 0.91, 0, 0), (battery_at 0.88, 0, 0)]",
        THEN conjunct1]
    by (simp only: l m)
  have e: "spec_triggers (Some 100) [94, 91, 88] = [True, False, True]"
    by (simp add: Let_def)
  have r: "triggers (app_after True [])
     [(battery_at 0.94, 0, 0), (battery_at 0.91, 0, 0), (battery_at 0.88, 0, 0)]
     = [True, False, True]"
    using t e by (rule trans)
  show ?thesis by (intro conjI h l m r)
qed

text \<open>
  The same example, by evaluating the handlers.
\<close>

lemma debounce_example_by_evaluation:
  "triggers (mount True)
     [(battery_at 0.94, 0, 0), (battery_at 0.91, 0, 0), (battery_at 0.88, 0, 0)]
     = [True, False, True]"
  by (simp add: mount_def initial_def handler_defs updateBatteryInfo_def battery_at_def
      Math_round_def Let_def)

text \<open>
  In every state the component reaches, no level is recorded iff no call was ever made.
\<close>

lemma recorded_iff_requested:
  "(lastFetchedLevel (app_after online es) = None) = (requests (app_after online es) = [])"
  using settled_app_after[of online es] by (simp add: settled_def)

text \<open>
  C8. Take the component after any events, online and with the loading flag set. A call
  is then pending, and a battery event whose level is at least 5 away from the recorded
  level makes a further call, with the updated stats: two calls are pending at once.
\<close>

theorem automatic_fetch_ignores_loading:
  assumes "isOnline (app_after online es)" "loadingInsight (app_after online es)"
    and "lastFetchedLevel (app_after online es) = Some l0"
    and "\<bar>Math_round (battery_level battery * 100) - l0\<bar> \<ge> 5"
  shows "1 \<le> pending (app_after online es) \<and>
         requests (telemetry battery r1 r2 (app_after online es)) =
           requests (app_after online es) @
             [updateBatteryInfo battery r1 r2 (stats (app_after online es))] \<and>
         pending (telemetry battery r1 r2 (app_after online es)) =
           Suc (pending (app_after online es)) \<and>
         loadingInsight (telemetry battery r1 r2 (app_after online es))"
proof -
  let ?s = "app_after online es"
  have st: "settled ?s" by (rule settled_app_after)
  then have p: "1 \<le> pending ?s" using assms(2) by (simp add: settled_def)
  have "\<bar>l0 - level (stats ?s)\<bar> < 5"
    using st assms(1,3) by (simp add: settled_def)
  then have ne: "Math_round (battery_level battery * 100) \<noteq> level (stats ?s)"
    using assms(4) by auto
  have abs: "\<bar>l0 - Math_round (battery_level battery * 100)\<bar> \<ge> 5" using assms(4) by simp
  show ?thesis
    using p ne abs assms(1,3)
    by (simp add: telemetry_def updateBatteryInfo_def debounceEffect_def fetchInsights_def Let_def)
qed

text \<open>
  C8 at a component just mounted online: the update to 94 makes a second call while the
  first is pending.
\<close>

theorem automatic_fetch_ignores_loading_witness:
  "isOnline (app_after True []) \<and> loadingInsight (app_after True []) \<and>
   pending (app_after True []) = 1 \<and>
   pending (telemetry (battery_at 0.94) 0 0 (app_after True [])) = 2 \<and>
   length (requests (telemetry (battery_at 0.94) 0 0 (app_after True []))) = 2"
proof -
  have s: "app_after True [] = mount True" by (simp add: app_after_def)
  have h1: "isOnline (app_after True [])"
    by (simp add: s mount_def initial_def debounceEffect_def fetchInsights_def)
  have h2: "loadingInsight (app_after True [])"
    by (simp add: s mount_def initial_def debounceEffect_def fetchInsights_def)
  have h3: "lastFetchedLevel (app_after True []) = Some 100"
    by (simp add: s mount_def initial_def debounceEffect_def fetchInsights_def)
  have h4: "\<bar>Math_round (battery_level (battery_at 0.94) * 100) - 100\<bar> \<ge> 5"
    by (simp add: battery_at_def Math_round_def)
  have p: "pending (app_after True []) = 1" "length (requests (app_after True [])) = 1"
    by (simp_all add: s mount_def initial_def debounceEffect_def fetchInsights_def)
  show ?thesis
    using automatic_fetch_ignores_loading[OF h1 h2 h3 h4, of 0 0] h1 h2 p by simp
qed

subsection \<open>The manual trigger and the loading flag\<close>

text \<open>
  A click while the loading flag is set, in any state: the button is disabled.
\<close>

lemma click_while_loading: "loadingInsight s \<Longrightarrow> deepAnalyzeClick s = s"
  by (simp add: deepAnalyzeClick_def)

text \<open>
  C7, as stated, fails. The component is mounted online (first call), the level moves to
  94 (second call), and the first call settles: one call is still in flight, the loading
  flag is clear and the button enabled, and a click starts a further call and changes the
  state.
\<close>

theorem manual_trigger_in_flight_counterexample:
  "pending (app_after True [Telemetry (battery_at 0.94) 0 0, Response Empty]) = 1 \<and>
   \<not> loadingInsight (app_after True [Telemetry (battery_at 0.94) 0 0, Response Empty]) \<and>
   pending (step DeepAnalyze (app_after True [Telemetry (battery_at 0.94) 0 0, Response Empty]))
     = 2 \<and>
   length (requests (app_after True [Telemetry (battery_at 0.94) 0 0, Response Empty])) = 2 \<and>
   length (requests
     (step DeepAnalyze (app_after True [Telemetry (battery_at 0.94) 0 0, Response Empty]))) = 3 \<and>
   step DeepAnalyze (app_after True [Telemetry (battery_at 0.94) 0 0, Response Empty]) \<noteq>
     app_after True [Telemetry (battery_at 0.94) 0 0, Response Empty]"
proof -
  let ?s = "app_after True [Telemetry (battery_at 0.94) 0 0, Response Empty]"
  have p: "pending ?s = 1"
    by (simp add: app_after_def mount_def initial_def handler_defs updateBatteryInfo_def
        battery_at_def Math_round_def getBatteryInsights_def Let_def)
  have l: "\<not> loadingInsight ?s"
    by (simp add: app_after_def mount_def initial_def handler_defs updateBatteryInfo_def
        battery_at_def Math_round_def getBatteryInsights_def Let_def)
  have on: "isOnline ?s"
    by (simp add: app_after_def mount_def initial_def handler_defs updateBatteryInfo_def
        battery_at_def Math_round_def getBatteryInsights_def Let_def)
  have r: "length (requests ?s) = 2"
    by (simp add: app_after_def mount_def initial_def handler_defs updateBatteryInfo_def
        battery_at_def Math_round_def getBatteryInsights_def Let_def)
  have c: "step DeepAnalyze ?s =
      ?s\<lparr>loadingInsight := True, requests := requests ?s @ [stats ?s],
          pending := Suc (pending ?s)\<rparr>"
    using l on by (simp add: deepAnalyzeClick_def fetchInsights_def)
  have p2: "pending (step DeepAnalyze ?s) = 2"
    unfolding c using p by simp
  have r2: "length (requests (step DeepAnalyze ?s)) = 3"
    unfolding c using r by simp
  have ne: "step DeepAnalyze ?s \<noteq> ?s"
  proof
    assume "step DeepAnalyze ?s = ?s"
    then have "pending (step DeepAnalyze ?s) = pending ?s" by simp
    then show False using p p2 by simp
  qed
  show ?thesis by (intro conjI p l p2 r r2 ne)
qed

text \<open>
  C7, amended. In every state the component reaches with the loading flag set, a call is
  in flight and a click on the Deep Analyze button changes nothing in the state: no
  further call is made.
\<close>

theorem manual_trigger_while_loading:
  assumes "loadingInsight (app_after online es)"
  shows "0 < pending (app_after online es) \<and>
         step DeepAnalyze (app_after online es) = app_after online es \<and>
         requests (step DeepAnalyze (app_after online es)) = requests (app_after online es) \<and>
         pending (step DeepAnalyze (app_after online es)) = pending (app_after online es)"
proof -
  have "settled (app_after online es)" by (rule settled_app_after)
  then have p: "0 < pending (app_after online es)"
    using assms by (simp add: settled_def)
  have "step DeepAnalyze (app_after online es) = app_after online es"
    using click_while_loading[OF assms] by simp
  then show ?thesis using p by simp
qed

text \<open>
  The amended C7 at a component mounted online whose level moved to 94: two calls are in
  flight, the flag is set, and the click makes no third one.
\<close>

theorem manual_trigger_while_loading_witness:
  "loadingInsight (app_after True [Telemetry (battery_at 0.94) 0 0]) \<and>
   pending (app_after True [Telemetry (battery_at 0.94) 0 0]) = 2 \<and>
   pending (step DeepAnalyze (app_after True [Telemetry (battery_at 0.94) 0 0])) = 2 \<and>
   step DeepAnalyze (app_after True [Telemetry (battery_at 0.94) 0 0]) =
     app_after True [Telemetry (battery_at 0.94) 0 0]"
proof -
  have h: "loadingInsight (app_after True [Telemetry (battery_at 0.94) 0 0])"
    by (simp add: app_after_def mount_def initial_def handler_defs updateBatteryInfo_def
        battery_at_def Math_round_def Let_def)
  have p: "pending (app_after True [Telemetry (battery_at 0.94) 0 0]) = 2"
    by (simp add: app_after_def mount_def initial_def handler_defs updateBatteryInfo_def
        battery_at_def Math_round_def Let_def)
  show ?thesis using manual_trigger_while_loading[OF h] h p by simp
qed

end
